theory Spec2Isabelle
  imports Complex_Main "HOL-Library.AList" "HOL-Library.Char_ord" "HOL-Library.List_Lexorder"
begin

section \<open>Python values\<close>

text \<open>
  The exceptions the modelled code can raise or receive; every one of them is a subclass of
  \<^verbatim>\<open>Exception\<close>. The first five are the classes that \<^verbatim>\<open>create_completion\<close> has an
  \<^verbatim>\<open>except\<close> clause for, in the order of the clauses. \<^verbatim>\<open>RateLimitError\<close> and
  \<^verbatim>\<open>APIConnectionError\<close> are subclasses of \<^verbatim>\<open>APIError\<close> and are caught by the clauses
  before it, so \<open>APIError status_code\<close> is an API error of another class that has the
  attribute \<^verbatim>\<open>status_code\<close> (a status error), and \<open>BareAPIError\<close> is an instance of
  \<^verbatim>\<open>APIError\<close> without that attribute, as the base class is. \<^verbatim>\<open>OpenAIError\<close> carries its
  message.
\<close>

datatype py_error =
    RateLimitError
  | APIConnectionError
  | APIError int
  | BareAPIError
  | OpenAIError string
  | OtherException string
  | ZeroDivisionError
  | AttributeError string
  | TypeError string
  | ValueError string
  | OverflowError
  | IndexError
  | ValidationError

text \<open>JSON-serialisable values; a \<^verbatim>\<open>dict\<close> keeps its insertion order.\<close>

datatype json =
    JNull
  | JBool bool
  | JInt int
  | JStr string
  | JList "json list"
  | JDict "(string \<times> json) list"

section \<open>Python strings\<close>

text \<open>\<^verbatim>\<open>str(n)\<close> for an integer, as an f-string formats it.\<close>

definition digit_char :: "nat \<Rightarrow> char" where
  "digit_char d = char_of (48 + d)"

fun str_nat :: "nat \<Rightarrow> string" where
  "str_nat n = (if n < 10 then [digit_char n] else str_nat (n div 10) @ [digit_char (n mod 10)])"

definition str_int :: "int \<Rightarrow> string" where
  "str_int i = (if i < 0 then CHR ''-'' # str_nat (nat (- i)) else str_nat (nat i))"

text \<open>\<^verbatim>\<open>sep.join(xs)\<close> and \<^verbatim>\<open>sorted(xs)\<close> on strings (code-point order).\<close>

fun join :: "string \<Rightarrow> string list \<Rightarrow> string" where
  "join sep [] = []"
| "join sep [x] = x"
| "join sep (x # y # ys) = x @ sep @ join sep (y # ys)"

definition sorted_strs :: "string list \<Rightarrow> string list" where
  "sorted_strs xs = sort xs"

text \<open>
  Functions of Python's standard library that the services call, taken as parameters:
  the Unicode-aware \<^verbatim>\<open>str.lower\<close>, \<^verbatim>\<open>str.strip\<close> and \<^verbatim>\<open>str.split\<close> (on whitespace),
  \<^verbatim>\<open>json.dumps(d, sort_keys=True)\<close> on a dictionary of strings and integers,
  \<^verbatim>\<open>hashlib.md5(s.encode()).hexdigest()\<close>, \<^verbatim>\<open>json.dumps\<close> and \<^verbatim>\<open>json.loads\<close> (which can
  raise).
\<close>

record library =
  str_lower :: "string \<Rightarrow> string"
  str_strip :: "string \<Rightarrow> string"
  str_split :: "string \<Rightarrow> string list"
  json_dumps_sort_keys :: "json \<Rightarrow> string"
  md5_hexdigest :: "string \<Rightarrow> string"
  json_dumps :: "json \<Rightarrow> py_error + string"
  json_loads :: "string \<Rightarrow> py_error + json"

section \<open>Work distribution: \<^verbatim>\<open>TestGenerationService._distribute_questions\<close>\<close>

text \<open>
  An assignment to an existing key of a \<^verbatim>\<open>dict\<close> keeps the key's place: an association
  list under \<^const>\<open>AList.update\<close>. The loop \<^verbatim>\<open>for i, q_type in enumerate(question_types)\<close>
  is the recursion on the list with the running index.
\<close>

fun distribute_loop ::
  "int \<Rightarrow> int \<Rightarrow> nat \<Rightarrow> string list \<Rightarrow> (string \<times> int) list \<Rightarrow> (string \<times> int) list" where
  "distribute_loop base_count remainder i [] distribution = distribution"
| "distribute_loop base_count remainder i (q_type # rest) distribution =
     distribute_loop base_count remainder (Suc i) rest
       (AList.update q_type (base_count + (if int i < remainder then 1 else 0)) distribution)"

text \<open>
  \<^verbatim>\<open>total_count // len(question_types)\<close> raises \<^verbatim>\<open>ZeroDivisionError\<close> on the empty list;
  for a positive divisor Python's floor division and modulo are \<open>div\<close> and \<open>mod\<close> on
  \<^typ>\<open>int\<close>.
\<close>

definition distribute_questions :: "int \<Rightarrow> string list \<Rightarrow> py_error + (string \<times> int) list" where
  "distribute_questions total_count question_types =
     (if question_types = [] then Inl ZeroDivisionError
      else
        let base_count = total_count div int (length question_types);
            remainder = total_count mod int (length question_types)
        in Inr (distribute_loop base_count remainder 0 question_types []))"

text \<open>The share of the category at index \<open>i\<close>, as the specification words it.\<close>

definition share :: "int \<Rightarrow> int \<Rightarrow> nat \<Rightarrow> int" where
  "share base_count remainder i = base_count + (if int i < remainder then 1 else 0)"

section \<open>Requests and cache keys\<close>


record test_generation_request =
  tg_subject :: string
  topics :: "string list"
  difficulty :: int
  question_count :: int
  question_types :: "string list"
  tg_student_level :: "int option"


text \<open>\<^verbatim>\<open>TestGenerationService._get_cache_key\<close>: the fields go into the key as they are.\<close>

definition get_cache_key :: "test_generation_request \<Rightarrow> string" where
  "get_cache_key request =
     (let topics_str = join ''_'' (sorted_strs (topics request));
          types_str = join ''_'' (sorted_strs (question_types request))
      in ''test:'' @ tg_subject request @ '':'' @ topics_str @ '':'' @ str_int (difficulty request)
         @ '':'' @ str_int (question_count request) @ '':'' @ types_str)"



section \<open>Retry controller: \<^verbatim>\<open>OpenAIClient.create_completion\<close>\<close>

text \<open>
  The completion endpoint is a script: the outcome of its \<open>k\<close>-th invocation, a response or
  a raised exception. The trace counts the invocations and records every
  \<^verbatim>\<open>time.sleep(wait_time)\<close> that returned.
\<close>

record trace =
  invocations :: nat
  sleeps :: "real list"

text \<open>
  The three statements that the retrying branch of a handler runs:
  \<^verbatim>\<open>wait_time = self.retry_delay * (2 ** attempt)\<close>, a log line, and
  \<^verbatim>\<open>time.sleep(wait_time)\<close>. The product is a float times an integer power of two: the
  conversion of the integer raises \<^verbatim>\<open>OverflowError\<close> from \<open>2 ^ 1024\<close> on; below that the
  float product is the exact product, or an infinity where the exact product is outside the
  range of the floats. The delay is modelled by the exact product, a real. \<^verbatim>\<open>time.sleep\<close>
  is a parameter, a function of that real: \<open>None\<close> when it returns, or the exception it
  raises (\<^verbatim>\<open>ValueError\<close> for a negative delay, \<^verbatim>\<open>OverflowError\<close> for one too large, an
  infinity included). An exception raised inside a handler leaves \<^verbatim>\<open>create_completion\<close>.
\<close>

definition sleep_backoff :: "(real \<Rightarrow> py_error option) \<Rightarrow> real \<Rightarrow> nat \<Rightarrow> py_error + real" where
  "sleep_backoff time_sleep retry_delay attempt =
     (if 1024 \<le> attempt then Inl OverflowError
      else
        let wait_time = retry_delay * 2 ^ attempt
        in case time_sleep wait_time of
             Some err \<Rightarrow> Inl err
           | None \<Rightarrow> Inr wait_time)"

text \<open>
  One iteration of \<^verbatim>\<open>for attempt in range(self.max_retries)\<close> per unfolding, the
  \<^verbatim>\<open>except\<close> clauses in their order; the last line is the \<^verbatim>\<open>raise\<close> after the loop. In
  the clause for \<^verbatim>\<open>APIError\<close> the condition
  \<^verbatim>\<open>attempt < self.max_retries - 1 and e.status_code >= 500\<close> reads the attribute only when
  its first conjunct holds; an error without the attribute then raises
  \<^verbatim>\<open>AttributeError\<close>.
\<close>

function create_completion_loop ::
  "(real \<Rightarrow> py_error option) \<Rightarrow> (nat \<Rightarrow> py_error + 'r) \<Rightarrow> int \<Rightarrow> real \<Rightarrow> nat \<Rightarrow> trace
     \<Rightarrow> (py_error + 'r) \<times> trace" where
  "create_completion_loop time_sleep endpoint max_retries retry_delay attempt tr =
     (if int attempt < max_retries then
        (let tr' = tr\<lparr>invocations := Suc (invocations tr)\<rparr> in
         case endpoint (invocations tr) of
           Inr response \<Rightarrow> (Inr response, tr')
         | Inl RateLimitError \<Rightarrow>
             if int attempt < max_retries - 1
             then (case sleep_backoff time_sleep retry_delay attempt of
                     Inl err \<Rightarrow> (Inl err, tr')
                   | Inr wait_time \<Rightarrow>
                       create_completion_loop time_sleep endpoint max_retries retry_delay
                         (Suc attempt) (tr'\<lparr>sleeps := sleeps tr' @ [wait_time]\<rparr>))
             else (Inl RateLimitError, tr')
         | Inl APIConnectionError \<Rightarrow>
             if int attempt < max_retries - 1
             then (case sleep_backoff time_sleep retry_delay attempt of
                     Inl err \<Rightarrow> (Inl err, tr')
                   | Inr wait_time \<Rightarrow>
                       create_completion_loop time_sleep endpoint max_retries retry_delay
                         (Suc attempt) (tr'\<lparr>sleeps := sleeps tr' @ [wait_time]\<rparr>))
             else (Inl APIConnectionError, tr')
         | Inl (APIError status_code) \<Rightarrow>
             if int attempt < max_retries - 1 \<and> status_code \<ge> 500
             then (case sleep_backoff time_sleep retry_delay attempt of
                     Inl err \<Rightarrow> (Inl err, tr')
                   | Inr wait_time \<Rightarrow>
                       create_completion_loop time_sleep endpoint max_retries retry_delay
                         (Suc attempt) (tr'\<lparr>sleeps := sleeps tr' @ [wait_time]\<rparr>))
             else (Inl (APIError status_code), tr')
         | Inl BareAPIError \<Rightarrow>
             if int attempt < max_retries - 1
             then (Inl (AttributeError ''status_code''), tr')
             else (Inl BareAPIError, tr')
         | Inl e \<Rightarrow> (Inl e, tr'))
      else (Inl (OpenAIError ''Failed to create completion after all retries''), tr))"
  by pat_completeness auto
termination
  by (relation "measure (\<lambda>(time_sleep, endpoint, max_retries, retry_delay, attempt, tr).
        nat (max_retries - int attempt))") auto

definition create_completion ::
  "(real \<Rightarrow> py_error option) \<Rightarrow> (nat \<Rightarrow> py_error + 'r) \<Rightarrow> int \<Rightarrow> real \<Rightarrow> trace
     \<Rightarrow> (py_error + 'r) \<times> trace" where
  "create_completion time_sleep endpoint max_retries retry_delay tr =
     create_completion_loop time_sleep endpoint max_retries retry_delay 0 tr"

text \<open>
  The failures the specification calls retryable: rate limiting, connectivity, and a
  server-side (5xx) endpoint error.
\<close>

fun retryable :: "py_error \<Rightarrow> bool" where
  "retryable RateLimitError = True"
| "retryable APIConnectionError = True"
| "retryable (APIError status_code) = (status_code \<ge> 500)"
| "retryable _ = False"

text \<open>The delay of the specification's backoff schedule.\<close>

definition backoff :: "real \<Rightarrow> nat \<Rightarrow> real" where
  "backoff retry_delay n = retry_delay * 2 ^ n"

text \<open>The error of the statement after the loop.\<close>

definition retries_exhausted :: py_error where
  "retries_exhausted = OpenAIError ''Failed to create completion after all retries''"

text \<open>
  Sample endpoints, a stub of \<^verbatim>\<open>time.sleep\<close> as a test installs it (it returns at once,
  and refuses a negative delay), and the trace of a fresh invocation.
\<close>

definition always_rate_limited :: "nat \<Rightarrow> py_error + string" where
  "always_rate_limited k = Inl RateLimitError"

definition bad_request :: "nat \<Rightarrow> py_error + string" where
  "bad_request k = (if k = 0 then Inl (APIError 400) else Inr ''ok'')"

definition stub_sleep :: "real \<Rightarrow> py_error option" where
  "stub_sleep secs =
     (if secs < 0 then Some (ValueError ''sleep length must be non-negative'') else None)"

definition fresh_trace :: trace where
  "fresh_trace = \<lparr>invocations = 0, sleeps = []\<rparr>"

section \<open>Cache store: \<^verbatim>\<open>RedisClient\<close>\<close>

text \<open>
  The connection \<^verbatim>\<open>self.redis\<close> is given by the commands the code sends, each a function of
  the server's state \<open>'s\<close> that returns or raises: \<^verbatim>\<open>get(key)\<close> (the stored string, or
  \<^verbatim>\<open>None\<close>), \<^verbatim>\<open>setex(key, ttl, value)\<close>, \<^verbatim>\<open>delete(*keys)\<close> (the number of keys removed)
  and \<^verbatim>\<open>keys(pattern)\<close>. The attribute \<^verbatim>\<open>redis\<close> is \<^verbatim>\<open>None\<close> until \<^verbatim>\<open>connect\<close> succeeds.
\<close>

record 's connection =
  conn_get :: "string \<Rightarrow> 's \<Rightarrow> (py_error + string option) \<times> 's"
  conn_setex :: "string \<Rightarrow> int \<Rightarrow> string \<Rightarrow> 's \<Rightarrow> (py_error + unit) \<times> 's"
  conn_delete :: "string list \<Rightarrow> 's \<Rightarrow> (py_error + int) \<times> 's"
  conn_keys :: "string \<Rightarrow> 's \<Rightarrow> (py_error + string list) \<times> 's"

record 's redis_client =
  redis :: "'s connection option"
  cache_ttl :: int

text \<open>The truth value of a JSON value, as \<^verbatim>\<open>if cached:\<close> tests it.\<close>

fun truthy :: "json \<Rightarrow> bool" where
  "truthy JNull = False"
| "truthy (JBool b) = b"
| "truthy (JInt i) = (i \<noteq> 0)"
| "truthy (JStr s) = (s \<noteq> [])"
| "truthy (JList xs) = (xs \<noteq> [])"
| "truthy (JDict kvs) = (kvs \<noteq> [])"

text \<open>
  \<^verbatim>\<open>RedisClient.get\<close>. The result \<^verbatim>\<open>None\<close> is \<^const>\<open>JNull\<close>. The handler
  \<^verbatim>\<open>except Exception\<close> covers the command and \<^verbatim>\<open>json.loads\<close>.
\<close>

definition redis_get ::
  "library \<Rightarrow> 's redis_client \<Rightarrow> string \<Rightarrow> 's \<Rightarrow> (py_error + json) \<times> 's" where
  "redis_get lib self key srv =
     (case redis self of
        None \<Rightarrow> (Inr JNull, srv)
      | Some conn \<Rightarrow>
          (case conn_get conn key srv of
             (Inl e, srv') \<Rightarrow> (Inr JNull, srv')
           | (Inr None, srv') \<Rightarrow> (Inr JNull, srv')
           | (Inr (Some v), srv') \<Rightarrow>
               if v \<noteq> [] then
                 (case json_loads lib v of
                    Inl e \<Rightarrow> (Inr JNull, srv')
                  | Inr j \<Rightarrow> (Inr j, srv'))
               else (Inr JNull, srv')))"

text \<open>
  \<^verbatim>\<open>RedisClient.set\<close>: the arguments of \<^verbatim>\<open>setex\<close> are evaluated first, so \<^verbatim>\<open>json.dumps\<close>
  runs before the command.
\<close>

definition redis_set ::
  "library \<Rightarrow> 's redis_client \<Rightarrow> string \<Rightarrow> json \<Rightarrow> int option \<Rightarrow> 's \<Rightarrow> (py_error + bool) \<times> 's" where
  "redis_set lib self key v ttl srv =
     (case redis self of
        None \<Rightarrow> (Inr False, srv)
      | Some conn \<Rightarrow>
          (let ttl' = (case ttl of Some t \<Rightarrow> t | None \<Rightarrow> cache_ttl self) in
           case json_dumps lib v of
             Inl e \<Rightarrow> (Inr False, srv)
           | Inr dumped \<Rightarrow>
               (case conn_setex conn key ttl' dumped srv of
                  (Inl e, srv') \<Rightarrow> (Inr False, srv')
                | (Inr u, srv') \<Rightarrow> (Inr True, srv'))))"

text \<open>\<^verbatim>\<open>RedisClient.delete\<close>.\<close>

definition redis_delete :: "'s redis_client \<Rightarrow> string \<Rightarrow> 's \<Rightarrow> (py_error + bool) \<times> 's" where
  "redis_delete self key srv =
     (case redis self of
        None \<Rightarrow> (Inr False, srv)
      | Some conn \<Rightarrow>
          (case conn_delete conn [key] srv of
             (Inl e, srv') \<Rightarrow> (Inr False, srv')
           | (Inr n, srv') \<Rightarrow> (Inr True, srv')))"

text \<open>
  Sample clients: one that never connected, and one whose connection raises on every
  command, as against a server that is unreachable.
\<close>

definition unreachable :: "unit connection" where
  "unreachable =
     \<lparr>conn_get = (\<lambda>key srv. (Inl (OtherException ''ConnectionError''), srv)),
      conn_setex = (\<lambda>key ttl v srv. (Inl (OtherException ''ConnectionError''), srv)),
      conn_delete = (\<lambda>keys srv. (Inl (OtherException ''ConnectionError''), srv)),
      conn_keys = (\<lambda>pattern srv. (Inl (OtherException ''ConnectionError''), srv))\<rparr>"

definition never_connected :: "unit redis_client" where
  "never_connected = \<lparr>redis = None, cache_ttl = 86400\<rparr>"

definition cut_off :: "unit redis_client" where
  "cut_off = \<lparr>redis = Some unreachable, cache_ttl = 86400\<rparr>"

text \<open>A library whose JSON functions answer with fixed values.\<close>

definition stub_library :: library where
  "stub_library =
     \<lparr>str_lower = (\<lambda>s. s), str_strip = (\<lambda>s. s), str_split = (\<lambda>s. [s]),
      json_dumps_sort_keys = (\<lambda>j. ''{}''), md5_hexdigest = (\<lambda>s. ''d41d8cd9''),
      json_dumps = (\<lambda>j. Inr ''null''), json_loads = (\<lambda>s. Inr JNull)\<rparr>"


section \<open>Cache invalidation: \<^verbatim>\<open>CacheInvalidationService.invalidate_learning_plans\<close>\<close>

text \<open>\<^verbatim>\<open>LearningPlanService._generate_cache_key\<close>, which names the entries of a student.\<close>

definition learning_plan_cache_key :: "string \<Rightarrow> string list \<Rightarrow> string option \<Rightarrow> int \<Rightarrow> string" where
  "learning_plan_cache_key student_id subjects exam_type planning_days =
     (let subjects_str = join ''_'' (sorted_strs subjects);
          exam_str = (case exam_type of
                        None \<Rightarrow> ''general''
                      | Some t \<Rightarrow> if t = [] then ''general'' else t)
      in ''learning_plan:'' @ student_id @ '':'' @ subjects_str @ '':'' @ exam_str @ '':''
         @ str_int planning_days)"

text \<open>
  \<^verbatim>\<open>invalidate_learning_plans\<close>: the student identifier goes into the pattern of
  \<^verbatim>\<open>KEYS\<close> as it is, and the keys found are deleted with one \<^verbatim>\<open>DEL\<close>.
\<close>

definition invalidate_learning_plans ::
  "'s redis_client \<Rightarrow> string \<Rightarrow> 's \<Rightarrow> (py_error + int) \<times> 's" where
  "invalidate_learning_plans client student_id srv =
     (case redis client of
        None \<Rightarrow> (Inr 0, srv)
      | Some conn \<Rightarrow>
          (let pattern = ''learning_plan:'' @ student_id @ '':*'' in
           case conn_keys conn pattern srv of
             (Inl e, srv') \<Rightarrow> (Inr 0, srv')
           | (Inr keys, srv') \<Rightarrow>
               if keys \<noteq> [] then
                 (case conn_delete conn keys srv' of
                    (Inl e, srv'') \<Rightarrow> (Inr 0, srv'')
                  | (Inr deleted, srv'') \<Rightarrow> (Inr deleted, srv''))
               else (Inr 0, srv')))"

subsection \<open>A server in memory\<close>

text \<open>
  The glob-style patterns of \<^verbatim>\<open>KEYS\<close>, after the matcher of the Redis server: \<^verbatim>\<open>*\<close>
  matches any sequence of characters, \<^verbatim>\<open>?\<close> one character, \<^verbatim>\<open>[...]\<close> one character of a
  class (with ranges, negated by \<^verbatim>\<open>^\<close>), a backslash takes the next character literally,
  and every other character matches itself. The scan of a class returns whether the
  character is in it and the pattern after the closing bracket.
\<close>

fun class_scan :: "string \<Rightarrow> char \<Rightarrow> bool \<Rightarrow> bool \<times> string" where
  "class_scan [] c m = (m, [])"
| "class_scan [p] c m = (if p = CHR '']'' then (m, []) else (m \<or> p = c, []))"
| "class_scan (p # q # qs) c m =
     (if p = CHR 0x5C then class_scan qs c (m \<or> q = c)
      else if p = CHR '']'' then (m, q # qs)
      else if q = CHR ''-'' then
        (case qs of
           [] \<Rightarrow> class_scan (q # qs) c (m \<or> p = c)
         | hi # rest \<Rightarrow> class_scan rest c (m \<or> (min p hi \<le> c \<and> c \<le> max p hi)))
      else class_scan (q # qs) c (m \<or> p = c))"

definition only_stars :: "string \<Rightarrow> bool" where
  "only_stars ps = (\<forall>p \<in> set ps. p = CHR ''*'')"

fun glob_match :: "string \<Rightarrow> string \<Rightarrow> bool" where
  "glob_match [] s = (s = [])"
| "glob_match (p # ps) [] = False"
| "glob_match (p # ps) (c # cs) =
     (if p = CHR ''*'' then
        (if ps = [] then True
         else glob_match ps (c # cs) \<or> (cs \<noteq> [] \<and> glob_match (p # ps) cs))
      else if p = CHR ''?'' then
        (if cs = [] then only_stars ps else glob_match ps cs)
      else if p = CHR ''['' then
        (case (case ps of
                 [] \<Rightarrow> class_scan ps c False
               | q # qs \<Rightarrow> if q = CHR ''^''
                          then (case class_scan qs c False of (m, rest) \<Rightarrow> (\<not> m, rest))
                          else class_scan ps c False) of
           (m, rest) \<Rightarrow> m \<and> (if cs = [] then only_stars rest else glob_match rest cs))
      else if p = CHR 0x5C then
        (case ps of
           [] \<Rightarrow> p = c \<and> cs = []
         | q # qs \<Rightarrow> q = c \<and> (if cs = [] then only_stars qs else glob_match qs cs))
      else p = c \<and> (if cs = [] then only_stars ps else glob_match ps cs))"

text \<open>
  The server's state is its key space, an association list from keys to values (time does
  not pass, so no entry expires). \<^verbatim>\<open>SETEX\<close> refuses a time to live that is not positive;
  \<^verbatim>\<open>DEL\<close> returns the number of keys it removed; \<^verbatim>\<open>KEYS\<close> with the pattern \<^verbatim>\<open>*\<close> returns
  every key.
\<close>

definition memory_redis :: "((string \<times> string) list) connection" where
  "memory_redis =
     \<lparr>conn_get = (\<lambda>key db. (Inr (map_of db key), db)),
      conn_setex = (\<lambda>key ttl v db.
        if ttl \<le> 0 then (Inl (OtherException ''ResponseError''), db)
        else (Inr (), AList.update key v db)),
      conn_delete = (\<lambda>keys db.
        (Inr (int (length (filter (\<lambda>kv. fst kv \<in> set keys) db))),
         filter (\<lambda>kv. fst kv \<notin> set keys) db)),
      conn_keys = (\<lambda>pattern db.
        (Inr (filter (\<lambda>key. pattern = ''*'' \<or> glob_match pattern key) (map fst db)), db))\<rparr>"

definition live_client :: "((string \<times> string) list) redis_client" where
  "live_client = \<lparr>redis = Some memory_redis, cache_ttl = 86400\<rparr>"


section \<open>Explanation parsing: \<^verbatim>\<open>ExplanationService._extract_examples\<close>\<close>

text \<open>The response models \<^verbatim>\<open>Example\<close> and \<^verbatim>\<open>Explanation\<close>.\<close>

record example =
  ex_title :: string
  ex_content :: string

record explanation =
  expl_content :: string
  examples :: "example list"
  related_topics :: "string list"
  expl_difficulty :: int
  estimated_read_time :: int

text \<open>
  The regular expressions of the service are fixed patterns, and the functions of the module
  \<^verbatim>\<open>re\<close> are parameters. \<^verbatim>\<open>re.finditer(pattern, content, re.IGNORECASE | re.DOTALL)\<close> with
  one of the two example patterns, the numbered
  \<^verbatim>\<open>Example \d+:?\s*([^\n]+)\n([^E]+?)(?=Example \d+|$)\<close> and the bold
  \<^verbatim>\<open>\*\*Example:?\*\*\s*([^\n]+)\n([^*]+?)(?=\*\*|$)\<close>, gives the groups 1 and 2 of its
  matches, in the order of the text. \<^verbatim>\<open>re.search(pattern, content, re.IGNORECASE)\<close> with one
  of the two patterns of a section of related topics gives group 1 of the first match, and
  \<^verbatim>\<open>re.findall\<close> the items of such a section.
\<close>

datatype example_pattern = NumberedExample | BoldExample

datatype topics_pattern = RelatedTopics | FurtherLearning

record regex =
  re_finditer :: "example_pattern \<Rightarrow> string \<Rightarrow> (string \<times> string) list"
  re_search :: "topics_pattern \<Rightarrow> string \<Rightarrow> string option"
  re_findall :: "string \<Rightarrow> string list"

text \<open>\<^verbatim>\<open>needle in haystack\<close> on strings.\<close>

fun contains :: "string \<Rightarrow> string \<Rightarrow> bool" where
  "contains needle [] = (needle = [])"
| "contains needle (c # cs) = (take (length needle) (c # cs) = needle \<or> contains needle cs)"

text \<open>
  The inner loop of \<^verbatim>\<open>_extract_examples\<close>: one \<^verbatim>\<open>Example\<close> per match of a pattern, title
  and content stripped.
\<close>

definition matched_examples :: "library \<Rightarrow> regex \<Rightarrow> example_pattern \<Rightarrow> string \<Rightarrow> example list" where
  "matched_examples lib re pattern content =
     map (\<lambda>(g1, g2). \<lparr>ex_title = str_strip lib g1, ex_content = str_strip lib g2\<rparr>)
       (re_finditer re pattern content)"

definition placeholder_example :: example where
  "placeholder_example =
     \<lparr>ex_title = ''Example'', ex_content = ''See explanation above for examples.''\<rparr>"

text \<open>
  \<^verbatim>\<open>_extract_examples\<close>: the outer loop takes the numbered pattern and then the bold one;
  the placeholder is appended when nothing was found and the lower-cased content contains
  \<^verbatim>\<open>example\<close>; the result is \<^verbatim>\<open>examples[:3]\<close>.
\<close>

definition extract_examples :: "library \<Rightarrow> regex \<Rightarrow> string \<Rightarrow> example list" where
  "extract_examples lib re content =
     (let examples = matched_examples lib re NumberedExample content
                     @ matched_examples lib re BoldExample content;
          examples' = (if examples = [] \<and> contains ''example'' (str_lower lib content)
                       then examples @ [placeholder_example]
                       else examples)
      in take 3 examples')"

text \<open>
  A sample \<^verbatim>\<open>re\<close> for two texts: in the first no pattern matches, in the second the
  numbered pattern matches three times and the bold one once.
\<close>

definition stub_regex :: regex where
  "stub_regex =
     \<lparr>re_finditer = (\<lambda>pattern content.
        if content = ''Four examples'' then
          (case pattern of
             NumberedExample \<Rightarrow> [(''one'', ''1 + 1''), (''two'', ''2 + 2''), (''three'', ''3 + 3'')]
           | BoldExample \<Rightarrow> [(''four'', ''4 + 4'')])
        else []),
      re_search = (\<lambda>pattern content. None),
      re_findall = (\<lambda>topics_text. [])\<rparr>"


section \<open>Test generation: \<^verbatim>\<open>TestGenerationService.generate_test\<close>\<close>

text \<open>
  The attributes of the \<^verbatim>\<open>OpenAIClient\<close> instance besides those every object has: the
  methods of the class and the attributes \<^verbatim>\<open>__init__\<close> sets. A look-up of any other name
  raises \<^verbatim>\<open>AttributeError\<close>.
\<close>

definition openai_client_attributes :: "string list" where
  "openai_client_attributes =
     [''__init__'', ''create_completion'', ''check_health'',
      ''client'', ''model'', ''temperature'', ''max_tokens'', ''max_retries'', ''retry_delay'']"

text \<open>
  The parts of the service that the property does not depend on are parameters: what the
  \<^verbatim>\<open>try\<close> block of \<^verbatim>\<open>_generate_questions_by_type\<close> does once it has the attribute (the call,
  the parsing of the response, the conversion into questions), the construction
  \<^verbatim>\<open>GeneratedTest(...)\<close> with title, time limit and passing score,
  \<^verbatim>\<open>test.model_dump_json()\<close>, and \<^verbatim>\<open>GeneratedTest(**json.loads(cached_test))\<close> on a cache
  hit.
\<close>

record ('q, 't) test_parts =
  chat_completion_body ::
    "string \<Rightarrow> int \<Rightarrow> test_generation_request \<Rightarrow> trace \<Rightarrow> (py_error + 'q list) \<times> trace"
  build_test :: "test_generation_request \<Rightarrow> 'q list \<Rightarrow> py_error + 't"
  model_dump_json :: "'t \<Rightarrow> string"
  load_test :: "json \<Rightarrow> py_error + 't"

text \<open>
  \<^verbatim>\<open>_generate_questions_by_type\<close>: the first statement of the \<^verbatim>\<open>try\<close> block reads
  \<^verbatim>\<open>openai_client.chat_completion\<close>; the handler \<^verbatim>\<open>except Exception\<close> logs and re-raises.
\<close>

definition generate_questions_by_type ::
  "('q, 't) test_parts \<Rightarrow> string \<Rightarrow> int \<Rightarrow> test_generation_request \<Rightarrow> trace
     \<Rightarrow> (py_error + 'q list) \<times> trace" where
  "generate_questions_by_type parts question_type count request tr =
     (if ''chat_completion'' \<in> set openai_client_attributes
      then chat_completion_body parts question_type count request tr
      else (Inl (AttributeError ''chat_completion''), tr))"

text \<open>
  \<^verbatim>\<open>_generate_questions\<close>: the loop \<^verbatim>\<open>for question_type, count in questions_per_type.items()\<close>
  with the questions collected so far.
\<close>

fun generate_questions_loop ::
  "('q, 't) test_parts \<Rightarrow> test_generation_request \<Rightarrow> (string \<times> int) list \<Rightarrow> 'q list \<Rightarrow> trace
     \<Rightarrow> (py_error + 'q list) \<times> trace" where
  "generate_questions_loop parts request [] questions tr = (Inr questions, tr)"
| "generate_questions_loop parts request ((question_type, count) # rest) questions tr =
     (if count > 0 then
        (case generate_questions_by_type parts question_type count request tr of
           (Inl e, tr') \<Rightarrow> (Inl e, tr')
         | (Inr type_questions, tr') \<Rightarrow>
             generate_questions_loop parts request rest (questions @ type_questions) tr')
      else generate_questions_loop parts request rest questions tr)"

definition generate_questions ::
  "('q, 't) test_parts \<Rightarrow> test_generation_request \<Rightarrow> trace \<Rightarrow> (py_error + 'q list) \<times> trace" where
  "generate_questions parts request tr =
     (case distribute_questions (question_count request) (question_types request) of
        Inl e \<Rightarrow> (Inl e, tr)
      | Inr questions_per_type \<Rightarrow> generate_questions_loop parts request questions_per_type [] tr)"

text \<open>
  A call \<^verbatim>\<open>redis_client.set(key, value, **kwargs)\<close>: key and value are passed by position, so
  of the parameters \<^verbatim>\<open>(self, key, value, ttl=None)\<close> only \<^verbatim>\<open>ttl\<close> can be given by keyword;
  any other keyword raises \<^verbatim>\<open>TypeError\<close> before the body runs.
\<close>

definition redis_set_call ::
  "library \<Rightarrow> 's redis_client \<Rightarrow> string \<Rightarrow> json \<Rightarrow> (string \<times> int) list \<Rightarrow> 's
     \<Rightarrow> (py_error + bool) \<times> 's" where
  "redis_set_call lib self key v kwargs srv =
     (case filter (\<lambda>kw. fst kw \<noteq> ''ttl'') kwargs of
        kw # others \<Rightarrow> (Inl (TypeError (''unexpected keyword argument '' @ fst kw)), srv)
      | [] \<Rightarrow> redis_set lib self key v (map_of kwargs ''ttl'') srv)"

text \<open>
  \<^verbatim>\<open>generate_test\<close>, on the state of the cache server and the trace of the completion
  endpoint. The service's own \<^verbatim>\<open>self.cache_ttl\<close> is 3600.
\<close>

definition test_cache_ttl :: int where
  "test_cache_ttl = 3600"

definition generate_test ::
  "library \<Rightarrow> ('q, 't) test_parts \<Rightarrow> 's redis_client \<Rightarrow> test_generation_request \<Rightarrow> 's \<times> trace
     \<Rightarrow> (py_error + 't) \<times> ('s \<times> trace)" where
  "generate_test lib parts client request w =
     (let cache_key = get_cache_key request in
      case redis_get lib client cache_key (fst w) of
        (Inl e, srv) \<Rightarrow> (Inl e, (srv, snd w))
      | (Inr cached_test, srv) \<Rightarrow>
          if truthy cached_test then
            (case load_test parts cached_test of
               Inl e \<Rightarrow> (Inl e, (srv, snd w))
             | Inr test \<Rightarrow> (Inr test, (srv, snd w)))
          else
            (case generate_questions parts request (snd w) of
               (Inl e, tr) \<Rightarrow> (Inl e, (srv, tr))
             | (Inr questions, tr) \<Rightarrow>
                 (case build_test parts request questions of
                    Inl e \<Rightarrow> (Inl e, (srv, tr))
                  | Inr test \<Rightarrow>
                      (case redis_set_call lib client cache_key (JStr (model_dump_json parts test))
                              [(''ex'', test_cache_ttl)] srv of
                         (Inl e, srv') \<Rightarrow> (Inl e, (srv', tr))
                       | (Inr ok, srv') \<Rightarrow> (Inr test, (srv', tr))))))"

text \<open>
  Sample parts, whose questions and tests are strings, and two sample requests: a usual one,
  and one that names a question type twice, so that the count of the type is overwritten
  with 0.
\<close>

definition stub_parts :: "(string, string) test_parts" where
  "stub_parts =
     \<lparr>chat_completion_body = (\<lambda>question_type count request tr.
        (Inr [question_type], tr\<lparr>invocations := Suc (invocations tr)\<rparr>)),
      build_test = (\<lambda>request questions. Inr (tg_subject request)),
      model_dump_json = (\<lambda>test. test),
      load_test = (\<lambda>cached. Inr ''cached'')\<rparr>"

definition usual_request :: test_generation_request where
  "usual_request =
     \<lparr>tg_subject = ''Mathematics'', topics = [''algebra''], difficulty = 5,
      question_count = 10, question_types = [''multiple_choice'', ''true_false''],
      tg_student_level = Some 8\<rparr>"

definition repeating_request :: test_generation_request where
  "repeating_request =
     \<lparr>tg_subject = ''Mathematics'', topics = [''algebra''], difficulty = 5,
      question_count = 1, question_types = [''multiple_choice'', ''multiple_choice''],
      tg_student_level = None\<rparr>"


section \<open>Explanation service: \<^verbatim>\<open>ExplanationService.get_explanation\<close>\<close>

















section \<open>Properties of the work distribution\<close>

lemma update_fresh: "q \<notin> fst ` set acc \<Longrightarrow> AList.update q v acc = acc @ [(q, v)]"
  by (induction acc) auto

lemma distribute_loop_fresh:
  "distinct qs \<Longrightarrow> set qs \<inter> fst ` set acc = {} \<Longrightarrow>
   distribute_loop b r i qs acc = acc @ zip qs (map (share b r) [i..<i + length qs])"
proof (induction qs arbitrary: i acc)
  case Nil
  then show ?case by simp
next
  case (Cons q qs)
  have notin: "q \<notin> fst ` set acc" using Cons.prems by auto
  have upd: "AList.update q (share b r i) acc = acc @ [(q, share b r i)]"
    using notin by (rule update_fresh)
  have fresh: "set qs \<inter> fst ` set (acc @ [(q, share b r i)]) = {}"
    using Cons.prems by auto
  have dist: "distinct qs" using Cons.prems by simp
  have step: "distribute_loop b r i (q # qs) acc =
      distribute_loop b r (Suc i) qs (acc @ [(q, share b r i)])"
    using upd by (simp add: share_def)
  have upt: "[i..<i + length (q # qs)] = i # [Suc i..<Suc i + length qs]"
    by (simp add: upt_rec)
  show ?case
    unfolding step Cons.IH [OF dist fresh] upt by simp
qed

lemma distribute_questions_eq:
  assumes "distinct qs" "qs \<noteq> []"
  shows "distribute_questions t qs =
    Inr (zip qs (map (share (t div int (length qs)) (t mod int (length qs))) [0..<length qs]))"
  using assms distribute_loop_fresh [of qs "[]" _ _ 0]
  by (simp add: distribute_questions_def Let_def)

lemma sum_list_share:
  "0 \<le> r \<Longrightarrow> r \<le> int n \<Longrightarrow> sum_list (map (share b r) [0..<n]) = int n * b + r"
proof (induction n arbitrary: r)
  case 0
  then show ?case by simp
next
  case (Suc n)
  show ?case
  proof (cases "r = int (Suc n)")
    case True
    have eq: "map (share b r) [0..<n] = map (share b (int n)) [0..<n]"
      using True by (simp add: share_def)
    have ih: "sum_list (map (share b (int n)) [0..<n]) = int n * b + int n"
      using Suc.IH [of "int n"] by simp
    have last: "share b r n = b + 1" using True by (simp add: share_def)
    have "sum_list (map (share b r) [0..<Suc n]) = (int n * b + int n) + (b + 1)"
      by (simp add: eq ih last)
    also have "\<dots> = int (Suc n) * b + r" using True by (simp add: distrib_right)
    finally show ?thesis .
  next
    case False
    with Suc.prems have le: "r \<le> int n" by simp
    have ih: "sum_list (map (share b r) [0..<n]) = int n * b + r"
      using Suc.IH [OF Suc.prems(1) le] .
    have last: "share b r n = b" using le by (simp add: share_def)
    have "sum_list (map (share b r) [0..<Suc n]) = (int n * b + r) + b"
      by (simp add: ih last)
    also have "\<dots> = int (Suc n) * b + r" by (simp add: distrib_right)
    finally show ?thesis .
  qed
qed

lemma share_range: "share b r i = b \<or> share b r i = b + 1"
  by (simp add: share_def)

lemma share_spread:
  assumes "0 < n"
  shows "Max (set (map (share b r) [0..<n])) - Min (set (map (share b r) [0..<n])) \<le> 1"
proof -
  let ?S = "set (map (share b r) [0..<n])"
  have fin: "finite ?S" by simp
  have ne: "?S \<noteq> {}" using assms by simp
  have "\<forall>v\<in>?S. v \<le> b + 1" by (auto simp: share_def)
  then have hi: "Max ?S \<le> b + 1" using fin ne by simp
  have "\<forall>v\<in>?S. b \<le> v" by (auto simp: share_def)
  then have lo: "b \<le> Min ?S" using fin ne by simp
  from hi lo show ?thesis by linarith
qed

text \<open>
  Claim C1. For every total in \<open>[1, 50]\<close> and every non-empty, duplicate-free ordered
  category list of size 1 to 3, \<^verbatim>\<open>_distribute_questions\<close> returns a mapping (keys in
  input order) whose values sum exactly to the total, whose largest and smallest values
  differ by at most 1, and in which the category at index \<open>i\<close> receives \<open>base + 1\<close> when
  \<open>i < remainder\<close> and \<open>base\<close> otherwise, with \<open>base = total div n\<close> and
  \<open>remainder = total mod n\<close>: the extra units go to the earliest categories.
\<close>

theorem distribute_questions_conserves_and_balances:
  assumes total: "1 \<le> total_count" "total_count \<le> 50"
      and cats: "distinct categories" "1 \<le> length categories" "length categories \<le> 3"
  shows "\<exists>d. distribute_questions total_count categories = Inr d
      \<and> map fst d = categories
      \<and> sum_list (map snd d) = total_count
      \<and> Max (set (map snd d)) - Min (set (map snd d)) \<le> 1
      \<and> (\<forall>i<length categories.
            map_of d (categories ! i) =
              Some (if int i < total_count mod int (length categories)
                    then total_count div int (length categories) + 1
                    else total_count div int (length categories)))"
proof -
  let ?n = "length categories"
  let ?b = "total_count div int ?n"
  let ?r = "total_count mod int ?n"
  let ?vs = "map (share ?b ?r) [0..<?n]"
  let ?d = "zip categories ?vs"
  have ne: "categories \<noteq> []" using cats(2) by auto
  have npos: "0 < int ?n" using ne by simp
  have d: "distribute_questions total_count categories = Inr ?d"
    using distribute_questions_eq [OF cats(1) ne] .
  have keys: "map fst ?d = categories" by simp
  have vals: "map snd ?d = ?vs" by simp
  have r0: "0 \<le> ?r" using npos by (rule pos_mod_sign)
  have "?r < int ?n" using npos by (rule pos_mod_bound)
  then have rn: "?r \<le> int ?n" by (rule less_imp_le)
  have "sum_list ?vs = int ?n * ?b + ?r" using sum_list_share [OF r0 rn] .
  also have "\<dots> = total_count" by simp
  finally have sum: "sum_list (map snd ?d) = total_count" unfolding vals .
  have spread: "Max (set (map snd ?d)) - Min (set (map snd ?d)) \<le> 1"
    unfolding vals using ne by (intro share_spread) simp
  have idx: "\<forall>i<?n. map_of ?d (categories ! i) =
      Some (if int i < ?r then ?b + 1 else ?b)"
  proof (intro allI impI)
    fix i assume i: "i < ?n"
    have m: "map_of ?d (categories ! i) = Some (?vs ! i)"
      using map_of_zip_nth [of categories ?vs i] cats(1) i by simp
    have v: "?vs ! i = share ?b ?r i" using i by simp
    have s: "share ?b ?r i = (if int i < ?r then ?b + 1 else ?b)"
      unfolding share_def by (cases "int i < ?r") simp_all
    show "map_of ?d (categories ! i) = Some (if int i < ?r then ?b + 1 else ?b)"
      unfolding m v s ..
  qed
  from d keys sum spread idx show ?thesis by blast
qed

theorem distribute_questions_conserves_and_balances_witness:
  "(1::int) \<le> 10 \<and> (10::int) \<le> 50 \<and> distinct [''A'', ''B'', ''C'']
   \<and> 1 \<le> length [''A'', ''B'', ''C''] \<and> length [''A'', ''B'', ''C''] \<le> 3
   \<and> distribute_questions 10 [''A'', ''B'', ''C''] = Inr [(''A'', 4), (''B'', 3), (''C'', 3)]
   \<and> (\<exists>d. distribute_questions 10 [''A'', ''B'', ''C''] = Inr d \<and> sum_list (map snd d) = 10
          \<and> Max (set (map snd d)) - Min (set (map snd d)) \<le> 1)"
proof -
  have ev: "distribute_questions 10 [''A'', ''B'', ''C''] = Inr [(''A'', 4), (''B'', 3), (''C'', 3)]"
    by (simp add: distribute_questions_def)
  have "\<exists>d. distribute_questions 10 [''A'', ''B'', ''C''] = Inr d \<and> sum_list (map snd d) = 10
          \<and> Max (set (map snd d)) - Min (set (map snd d)) \<le> 1"
    using distribute_questions_conserves_and_balances [of 10 "[''A'', ''B'', ''C'']"]
    by auto
  with ev show ?thesis by simp
qed

section \<open>Properties of the cache keys\<close>


text \<open>
  Claim C2 fails for test keys. \<^verbatim>\<open>_get_cache_key\<close> puts the subject into the key as it is:
  two test requests that differ only in the case of the subject, \<^verbatim>\<open>Math\<close> and \<^verbatim>\<open>math\<close>,
  derive the different keys \<^verbatim>\<open>test:Math:algebra:5:10:multiple_choice\<close> and
  \<^verbatim>\<open>test:math:algebra:5:10:multiple_choice\<close>.
\<close>

theorem test_cache_key_keeps_case:
  "get_cache_key \<lparr>tg_subject = ''Math'', topics = [''algebra''], difficulty = 5,
        question_count = 10, question_types = [''multiple_choice''], tg_student_level = None\<rparr>
     = ''test:Math:algebra:5:10:multiple_choice''
   \<and> get_cache_key \<lparr>tg_subject = ''math'', topics = [''algebra''], difficulty = 5,
        question_count = 10, question_types = [''multiple_choice''], tg_student_level = None\<rparr>
     = ''test:math:algebra:5:10:multiple_choice''
   \<and> get_cache_key \<lparr>tg_subject = ''Math'', topics = [''algebra''], difficulty = 5,
        question_count = 10, question_types = [''multiple_choice''], tg_student_level = None\<rparr>
     \<noteq> get_cache_key \<lparr>tg_subject = ''math'', topics = [''algebra''], difficulty = 5,
        question_count = 10, question_types = [''multiple_choice''], tg_student_level = None\<rparr>"
  by code_simp

section \<open>Properties of the retry controller\<close>

declare create_completion_loop.simps [simp del]

lemma sleep_backoff_ok:
  "attempt < 1024 \<Longrightarrow> time_sleep (retry_delay * 2 ^ attempt) = None \<Longrightarrow>
   sleep_backoff time_sleep retry_delay attempt = Inr (backoff retry_delay attempt)"
  by (simp add: sleep_backoff_def backoff_def)

lemma sleep_backoff_Inr:
  "sleep_backoff time_sleep retry_delay attempt = Inr w \<Longrightarrow> w = backoff retry_delay attempt"
  by (cases "time_sleep (retry_delay * 2 ^ attempt)")
    (simp_all add: sleep_backoff_def backoff_def split: if_splits)

lemma loop_exhausted:
  "\<not> int attempt < max_retries \<Longrightarrow>
   create_completion_loop time_sleep endpoint max_retries retry_delay attempt tr =
     (Inl retries_exhausted, tr)"
  by (subst create_completion_loop.simps) (simp add: retries_exhausted_def)

lemma loop_success:
  "int attempt < max_retries \<Longrightarrow> endpoint (invocations tr) = Inr response \<Longrightarrow>
   create_completion_loop time_sleep endpoint max_retries retry_delay attempt tr =
     (Inr response, tr\<lparr>invocations := Suc (invocations tr)\<rparr>)"
  by (subst create_completion_loop.simps) (simp add: Let_def)

lemma loop_retry:
  "int attempt < max_retries - 1 \<Longrightarrow> endpoint (invocations tr) = Inl e \<Longrightarrow> retryable e \<Longrightarrow>
   sleep_backoff time_sleep retry_delay attempt = Inr w \<Longrightarrow>
   create_completion_loop time_sleep endpoint max_retries retry_delay attempt tr =
     create_completion_loop time_sleep endpoint max_retries retry_delay (Suc attempt)
       (tr\<lparr>invocations := Suc (invocations tr), sleeps := sleeps tr @ [w]\<rparr>)"
  by (subst create_completion_loop.simps, cases e) (simp_all add: Let_def)

lemma loop_backoff_fails:
  "int attempt < max_retries - 1 \<Longrightarrow> endpoint (invocations tr) = Inl e \<Longrightarrow> retryable e \<Longrightarrow>
   sleep_backoff time_sleep retry_delay attempt = Inl err \<Longrightarrow>
   create_completion_loop time_sleep endpoint max_retries retry_delay attempt tr =
     (Inl err, tr\<lparr>invocations := Suc (invocations tr)\<rparr>)"
  by (subst create_completion_loop.simps, cases e) (simp_all add: Let_def)

lemma loop_last:
  "int attempt < max_retries \<Longrightarrow> \<not> int attempt < max_retries - 1 \<Longrightarrow>
   endpoint (invocations tr) = Inl e \<Longrightarrow>
   create_completion_loop time_sleep endpoint max_retries retry_delay attempt tr =
     (Inl e, tr\<lparr>invocations := Suc (invocations tr)\<rparr>)"
  by (subst create_completion_loop.simps, cases e) (simp_all add: Let_def)

lemma loop_not_retryable:
  "int attempt < max_retries \<Longrightarrow> endpoint (invocations tr) = Inl e \<Longrightarrow> \<not> retryable e \<Longrightarrow>
   e \<noteq> BareAPIError \<Longrightarrow>
   create_completion_loop time_sleep endpoint max_retries retry_delay attempt tr =
     (Inl e, tr\<lparr>invocations := Suc (invocations tr)\<rparr>)"
  by (subst create_completion_loop.simps, cases e) (simp_all add: Let_def)

lemma loop_bare:
  "int attempt < max_retries - 1 \<Longrightarrow> endpoint (invocations tr) = Inl BareAPIError \<Longrightarrow>
   create_completion_loop time_sleep endpoint max_retries retry_delay attempt tr =
     (Inl (AttributeError ''status_code''), tr\<lparr>invocations := Suc (invocations tr)\<rparr>)"
  by (subst create_completion_loop.simps) (simp add: Let_def)

text \<open>
  One iteration: the loop ends with the outcome of this invocation, with an error raised in
  the handler, or goes on to the next attempt after the sleep.
\<close>

lemma loop_step:
  assumes lt: "int attempt < max_retries"
  shows "(\<exists>x. create_completion_loop time_sleep endpoint max_retries retry_delay attempt tr =
            (x, tr\<lparr>invocations := Suc (invocations tr)\<rparr>)
          \<and> (x = endpoint (invocations tr)
             \<or> (\<exists>err. sleep_backoff time_sleep retry_delay attempt = Inl err \<and> x = Inl err)
             \<or> (endpoint (invocations tr) = Inl BareAPIError
                \<and> x = Inl (AttributeError ''status_code''))))
       \<or> (int attempt < max_retries - 1
          \<and> create_completion_loop time_sleep endpoint max_retries retry_delay attempt tr =
              create_completion_loop time_sleep endpoint max_retries retry_delay (Suc attempt)
                (tr\<lparr>invocations := Suc (invocations tr),
                    sleeps := sleeps tr @ [backoff retry_delay attempt]\<rparr>))"
proof (cases "endpoint (invocations tr)")
  case (Inr response)
  have "create_completion_loop time_sleep endpoint max_retries retry_delay attempt tr =
      (Inr response, tr\<lparr>invocations := Suc (invocations tr)\<rparr>)"
    using lt Inr by (rule loop_success)
  with Inr show ?thesis by simp
next
  case (Inl e)
  show ?thesis
  proof (cases "int attempt < max_retries - 1")
    case False
    have "create_completion_loop time_sleep endpoint max_retries retry_delay attempt tr =
        (Inl e, tr\<lparr>invocations := Suc (invocations tr)\<rparr>)"
      using lt False Inl by (rule loop_last)
    with Inl show ?thesis by simp
  next
    case True
    show ?thesis
    proof (cases "retryable e")
      case re: True
      show ?thesis
      proof (cases "sleep_backoff time_sleep retry_delay attempt")
        case err: (Inl err)
        have "create_completion_loop time_sleep endpoint max_retries retry_delay attempt tr =
            (Inl err, tr\<lparr>invocations := Suc (invocations tr)\<rparr>)"
          using True Inl re err by (rule loop_backoff_fails)
        with err show ?thesis by simp
      next
        case w: (Inr w)
        have weq: "w = backoff retry_delay attempt" using w by (rule sleep_backoff_Inr)
        have "create_completion_loop time_sleep endpoint max_retries retry_delay attempt tr =
            create_completion_loop time_sleep endpoint max_retries retry_delay (Suc attempt)
              (tr\<lparr>invocations := Suc (invocations tr), sleeps := sleeps tr @ [w]\<rparr>)"
          using True Inl re w by (rule loop_retry)
        with True weq show ?thesis by simp
      qed
    next
      case nre: False
      show ?thesis
      proof (cases "e = BareAPIError")
        case bare: True
        have "create_completion_loop time_sleep endpoint max_retries retry_delay attempt tr =
            (Inl (AttributeError ''status_code''), tr\<lparr>invocations := Suc (invocations tr)\<rparr>)"
          using True Inl [unfolded bare] by (rule loop_bare)
        with Inl bare show ?thesis by simp
      next
        case nb: False
        have "create_completion_loop time_sleep endpoint max_retries retry_delay attempt tr =
            (Inl e, tr\<lparr>invocations := Suc (invocations tr)\<rparr>)"
          using lt Inl nre nb by (rule loop_not_retryable)
        with Inl show ?thesis by simp
      qed
    qed
  qed
qed

text \<open>
  The outcome of a run that makes an attempt: it has invoked the endpoint, and it ends with
  the outcome of its last invocation or with an error raised in a handler.
\<close>

lemma loop_outcome:
  "int attempt < max_retries \<Longrightarrow>
   invocations tr < invocations (snd
       (create_completion_loop time_sleep endpoint max_retries retry_delay attempt tr))
   \<and> (fst (create_completion_loop time_sleep endpoint max_retries retry_delay attempt tr)
         = endpoint (invocations (snd
             (create_completion_loop time_sleep endpoint max_retries retry_delay attempt tr)) - 1)
      \<or> (\<exists>n err. sleep_backoff time_sleep retry_delay n = Inl err
            \<and> fst (create_completion_loop time_sleep endpoint max_retries retry_delay attempt tr)
                = Inl err)
      \<or> (endpoint (invocations (snd
             (create_completion_loop time_sleep endpoint max_retries retry_delay attempt tr)) - 1)
           = Inl BareAPIError
         \<and> fst (create_completion_loop time_sleep endpoint max_retries retry_delay attempt tr)
             = Inl (AttributeError ''status_code'')))"
proof (induction "nat (max_retries - int attempt)" arbitrary: attempt tr)
  case 0
  then show ?case by simp
next
  case (Suc n)
  have lt: "int attempt < max_retries" by (rule Suc.prems)
  let ?L = "create_completion_loop time_sleep endpoint max_retries retry_delay attempt tr"
  let ?tr1 = "tr\<lparr>invocations := Suc (invocations tr)\<rparr>"
  let ?tr2 = "tr\<lparr>invocations := Suc (invocations tr),
                   sleeps := sleeps tr @ [backoff retry_delay attempt]\<rparr>"
  let ?R = "create_completion_loop time_sleep endpoint max_retries retry_delay (Suc attempt) ?tr2"
  from loop_step [OF lt, of time_sleep endpoint retry_delay tr]
  consider (stop) x where "?L = (x, ?tr1)"
      "x = endpoint (invocations tr)
       \<or> (\<exists>err. sleep_backoff time_sleep retry_delay attempt = Inl err \<and> x = Inl err)
       \<or> (endpoint (invocations tr) = Inl BareAPIError \<and> x = Inl (AttributeError ''status_code''))"
    | (retry) "int attempt < max_retries - 1" "?L = ?R"
    by blast
  then show ?case
  proof cases
    case stop
    have i: "invocations (snd ?L) = Suc (invocations tr)" unfolding stop(1) by simp
    have f: "fst ?L = x" unfolding stop(1) by simp
    have "invocations tr < invocations (snd ?L)" unfolding i by simp
    moreover have "fst ?L = endpoint (invocations (snd ?L) - 1)
      \<or> (\<exists>n err. sleep_backoff time_sleep retry_delay n = Inl err \<and> fst ?L = Inl err)
      \<or> (endpoint (invocations (snd ?L) - 1) = Inl BareAPIError
         \<and> fst ?L = Inl (AttributeError ''status_code''))"
      unfolding i f using stop(2) by auto
    ultimately show ?thesis by (rule conjI)
  next
    case retry
    have n: "n = nat (max_retries - int (Suc attempt))" using Suc.hyps(2) by linarith
    have lt2: "int (Suc attempt) < max_retries" using retry(1) by simp
    have ih: "invocations ?tr2 < invocations (snd ?R)
      \<and> (fst ?R = endpoint (invocations (snd ?R) - 1)
         \<or> (\<exists>n err. sleep_backoff time_sleep retry_delay n = Inl err \<and> fst ?R = Inl err)
         \<or> (endpoint (invocations (snd ?R) - 1) = Inl BareAPIError
            \<and> fst ?R = Inl (AttributeError ''status_code'')))"
      using n lt2 by (rule Suc.hyps(1))
    from ih have "invocations ?tr2 < invocations (snd ?R)" by (rule conjunct1)
    then have "invocations tr < invocations (snd ?R)" by simp
    moreover from ih have "fst ?R = endpoint (invocations (snd ?R) - 1)
         \<or> (\<exists>n err. sleep_backoff time_sleep retry_delay n = Inl err \<and> fst ?R = Inl err)
         \<or> (endpoint (invocations (snd ?R) - 1) = Inl BareAPIError
            \<and> fst ?R = Inl (AttributeError ''status_code''))"
      by (rule conjunct2)
    ultimately show ?thesis unfolding retry(2) by (rule conjI)
  qed
qed

text \<open>
  The trace of a run: every attempt invokes the endpoint once, and the sleeps are the
  backoff delays of all attempts but the last.
\<close>

lemma loop_invariant:
  "invocations tr \<le> invocations (snd
       (create_completion_loop time_sleep endpoint max_retries retry_delay attempt tr))
   \<and> sleeps (snd (create_completion_loop time_sleep endpoint max_retries retry_delay attempt tr))
       = sleeps tr @ map (backoff retry_delay)
           [attempt..<attempt + (invocations (snd
               (create_completion_loop time_sleep endpoint max_retries retry_delay attempt tr))
             - invocations tr) - 1]"
proof (induction "nat (max_retries - int attempt)" arbitrary: attempt tr)
  case 0
  then have "\<not> int attempt < max_retries" by simp
  then show ?case by (simp add: loop_exhausted)
next
  case (Suc n)
  then have lt: "int attempt < max_retries" by linarith
  let ?L = "create_completion_loop time_sleep endpoint max_retries retry_delay attempt tr"
  let ?tr1 = "tr\<lparr>invocations := Suc (invocations tr)\<rparr>"
  let ?tr2 = "tr\<lparr>invocations := Suc (invocations tr),
                   sleeps := sleeps tr @ [backoff retry_delay attempt]\<rparr>"
  let ?R = "create_completion_loop time_sleep endpoint max_retries retry_delay (Suc attempt) ?tr2"
  from loop_step [OF lt, of time_sleep endpoint retry_delay tr]
  consider (stop) x where "?L = (x, ?tr1)" | (retry) "int attempt < max_retries - 1" "?L = ?R"
    by blast
  then show ?case
  proof cases
    case stop
    then show ?thesis by simp
  next
    case retry
    have n: "n = nat (max_retries - int (Suc attempt))" using Suc.hyps(2) by linarith
    have lt2: "int (Suc attempt) < max_retries" using retry(1) by simp
    have "invocations ?tr2 < invocations (snd ?R)"
      using loop_outcome [OF lt2, of ?tr2 time_sleep endpoint retry_delay] by (rule conjunct1)
    then have lt3: "Suc (invocations tr) < invocations (snd ?R)" by simp
    have ih2: "sleeps (snd ?R) = sleeps ?tr2 @ map (backoff retry_delay)
        [Suc attempt..<Suc attempt + (invocations (snd ?R) - invocations ?tr2) - 1]"
      using Suc.hyps(1) [OF n, of ?tr2] by (rule conjunct2)
    define k where "k = invocations (snd ?R) - Suc (Suc (invocations tr))"
    have k: "invocations (snd ?R) = Suc (Suc (invocations tr)) + k"
      unfolding k_def using lt3 by linarith
    have "sleeps (snd ?R) = sleeps tr @ backoff retry_delay attempt #
        map (backoff retry_delay) [Suc attempt..<Suc attempt + k]"
      using ih2 k by simp
    also have "\<dots> = sleeps tr @ map (backoff retry_delay) [attempt..<attempt + Suc k]"
      by (simp add: upt_rec [of attempt])
    finally have sl: "sleeps (snd ?R) =
        sleeps tr @ map (backoff retry_delay) [attempt..<attempt + Suc k]" .
    have d: "invocations (snd ?R) - invocations tr = Suc (Suc k)" using k by simp
    have "invocations tr \<le> invocations (snd ?R)" using k by simp
    then show ?thesis unfolding retry(2) d using sl by simp
  qed
qed

lemma loop_all_retryable:
  assumes all: "\<forall>k. int k < max_retries \<longrightarrow> (\<exists>e. endpoint (c + k) = Inl e \<and> retryable e)"
      and sl: "\<forall>n. int n < max_retries - 1 \<longrightarrow>
                 sleep_backoff time_sleep retry_delay n = Inr (backoff retry_delay n)"
      and "invocations tr = c + attempt" and "int attempt < max_retries"
  shows "create_completion_loop time_sleep endpoint max_retries retry_delay attempt tr =
     (endpoint (c + (nat max_retries - 1)),
      tr\<lparr>invocations := c + nat max_retries,
         sleeps := sleeps tr @ map (backoff retry_delay) [attempt..<nat max_retries - 1]\<rparr>)"
  using assms(3,4)
proof (induction "nat max_retries - 1 - attempt" arbitrary: attempt tr)
  case 0
  then have last: "\<not> int attempt < max_retries - 1" by linarith
  from 0 last have att: "attempt = nat max_retries - 1" by linarith
  from all 0(3) have "\<exists>e. endpoint (c + attempt) = Inl e \<and> retryable e" by blast
  then obtain e where e: "endpoint (c + attempt) = Inl e" by blast
  have e': "endpoint (invocations tr) = Inl e" using e 0(2) by simp
  have "create_completion_loop time_sleep endpoint max_retries retry_delay attempt tr =
      (Inl e, tr\<lparr>invocations := Suc (invocations tr)\<rparr>)"
    using 0(3) last e' by (rule loop_last)
  moreover have "Suc (invocations tr) = c + nat max_retries" using 0(2,3) att by linarith
  ultimately show ?case using e att by simp
next
  case (Suc n)
  then have lt: "int attempt < max_retries - 1" by linarith
  from all Suc(4) have "\<exists>e. endpoint (c + attempt) = Inl e \<and> retryable e" by blast
  then obtain e where "endpoint (c + attempt) = Inl e" and re: "retryable e" by blast
  then have e: "endpoint (invocations tr) = Inl e" using Suc(3) by simp
  have w: "sleep_backoff time_sleep retry_delay attempt = Inr (backoff retry_delay attempt)"
    using sl lt by blast
  let ?tr2 = "tr\<lparr>invocations := Suc (invocations tr),
                   sleeps := sleeps tr @ [backoff retry_delay attempt]\<rparr>"
  have step: "create_completion_loop time_sleep endpoint max_retries retry_delay attempt tr =
      create_completion_loop time_sleep endpoint max_retries retry_delay (Suc attempt) ?tr2"
    using lt e re w by (rule loop_retry)
  have n: "n = nat max_retries - 1 - Suc attempt" using Suc(2) by linarith
  have inv2: "invocations ?tr2 = c + Suc attempt" using Suc(3) by simp
  have lt2: "int (Suc attempt) < max_retries" using lt by simp
  have upt: "[attempt..<nat max_retries - 1] = attempt # [Suc attempt..<nat max_retries - 1]"
    using lt by (simp add: upt_rec [of attempt])
  show ?case
    unfolding step Suc(1) [OF n inv2 lt2] upt by simp
qed

lemma stub_sleep_backoff:
  "n < 1024 \<Longrightarrow> 0 \<le> retry_delay \<Longrightarrow>
   sleep_backoff stub_sleep retry_delay n = Inr (backoff retry_delay n)"
proof -
  assume n: "n < 1024" and d: "0 \<le> retry_delay"
  have "0 \<le> retry_delay * 2 ^ n" using d by simp
  then have "stub_sleep (retry_delay * 2 ^ n) = None" by (simp add: stub_sleep_def)
  with n show ?thesis by (rule sleep_backoff_ok)
qed

lemma rate_limited_three_attempts:
  "create_completion stub_sleep always_rate_limited 3 1 fresh_trace =
     (Inl RateLimitError, \<lparr>invocations = 3, sleeps = [1, 2]\<rparr>)"
proof -
  have all: "\<forall>k. int k < 3 \<longrightarrow> (\<exists>e. always_rate_limited (0 + k) = Inl e \<and> retryable e)"
    by (simp add: always_rate_limited_def)
  have sl: "\<forall>n. int n < 3 - 1 \<longrightarrow> sleep_backoff stub_sleep 1 n = Inr (backoff 1 n)"
    by (simp add: stub_sleep_backoff)
  have inv: "invocations fresh_trace = 0 + 0" by (simp add: fresh_trace_def)
  have "create_completion_loop stub_sleep always_rate_limited 3 1 0 fresh_trace =
      (always_rate_limited (0 + (nat 3 - 1)),
       fresh_trace\<lparr>invocations := 0 + nat 3,
         sleeps := sleeps fresh_trace @ map (backoff 1) [0..<nat 3 - 1]\<rparr>)"
    using all sl inv by (rule loop_all_retryable) simp
  moreover have "[0..<nat 3 - 1] = [0, Suc 0]" by (simp add: upt_rec)
  ultimately show ?thesis
    by (simp add: create_completion_def always_rate_limited_def fresh_trace_def backoff_def)
qed

text \<open>
  Claim C3, as amended. In \<^verbatim>\<open>create_completion\<close> the delay slept after the failed attempt
  \<open>n\<close> (0-indexed), that is before attempt \<open>n + 1\<close>, is \<open>retry_delay * 2 ^ n\<close>; nothing is
  slept before the first attempt or after the last one, so an invocation that makes \<open>k\<close>
  attempts sleeps \<open>k - 1\<close> times. With three attempts and a base delay of one second, an
  endpoint that is rate-limited on every call is invoked exactly three times, with the
  delays 1 and 2 in between, and the invocation fails.
\<close>

theorem create_completion_backoff_schedule:
  "sleeps (snd (create_completion time_sleep endpoint max_retries retry_delay tr)) =
     sleeps tr @ map (\<lambda>n. retry_delay * 2 ^ n)
       [0..<(invocations (snd (create_completion time_sleep endpoint max_retries retry_delay tr))
              - invocations tr) - 1]
   \<and> create_completion stub_sleep always_rate_limited 3 1 fresh_trace =
       (Inl RateLimitError, \<lparr>invocations = 3, sleeps = [1, 2]\<rparr>)"
proof
  have b: "backoff retry_delay = (\<lambda>n. retry_delay * 2 ^ n)"
    by (rule ext) (simp add: backoff_def)
  have "sleeps (snd (create_completion_loop time_sleep endpoint max_retries retry_delay 0 tr))
       = sleeps tr @ map (backoff retry_delay)
           [0..<0 + (invocations (snd
               (create_completion_loop time_sleep endpoint max_retries retry_delay 0 tr))
             - invocations tr) - 1]"
    using loop_invariant [of tr time_sleep endpoint max_retries retry_delay 0]
    by (rule conjunct2)
  then show "sleeps (snd (create_completion time_sleep endpoint max_retries retry_delay tr)) =
     sleeps tr @ map (\<lambda>n. retry_delay * 2 ^ n)
       [0..<(invocations (snd (create_completion time_sleep endpoint max_retries retry_delay tr))
              - invocations tr) - 1]"
    unfolding create_completion_def b by simp
next
  show "create_completion stub_sleep always_rate_limited 3 1 fresh_trace =
       (Inl RateLimitError, \<lparr>invocations = 3, sleeps = [1, 2]\<rparr>)"
    by (rule rate_limited_three_attempts)
qed

text \<open>
  The claim as stated fails: the always rate-limited endpoint causes two delays, 1 and 2,
  not the three delays 1, 2 and 4.
\<close>

theorem backoff_delays_counterexample:
  "sleeps (snd (create_completion stub_sleep always_rate_limited 3 1 fresh_trace)) = [1, 2]
   \<and> sleeps (snd (create_completion stub_sleep always_rate_limited 3 1 fresh_trace)) \<noteq> [1, 2, 4]
   \<and> invocations (snd (create_completion stub_sleep always_rate_limited 3 1 fresh_trace)) = 3"
  by (simp add: rate_limited_three_attempts)




text \<open>
  Claim C5. When the endpoint raises a client-side (4xx) API error on the first attempt,
  \<^verbatim>\<open>create_completion\<close> makes exactly one invocation, does not sleep, and propagates that
  error.
\<close>

theorem create_completion_client_error_not_retried:
  assumes "1 \<le> max_retries"
      and "endpoint (invocations tr) = Inl (APIError status_code)"
      and "400 \<le> status_code" "status_code < 500"
  shows "create_completion time_sleep endpoint max_retries retry_delay tr =
     (Inl (APIError status_code), tr\<lparr>invocations := Suc (invocations tr)\<rparr>)"
proof -
  have lt: "int 0 < max_retries" using assms(1) by simp
  have nr: "\<not> retryable (APIError status_code)" using assms(4) by simp
  have nb: "APIError status_code \<noteq> BareAPIError" by simp
  show ?thesis
    unfolding create_completion_def using lt assms(2) nr nb by (rule loop_not_retryable)
qed

theorem create_completion_client_error_not_retried_witness:
  "(1::int) \<le> 3 \<and> bad_request (invocations fresh_trace) = Inl (APIError 400)
   \<and> (400::int) \<le> 400 \<and> (400::int) < 500
   \<and> create_completion stub_sleep bad_request 3 1 fresh_trace =
       (Inl (APIError 400), \<lparr>invocations = 1, sleeps = []\<rparr>)"
  using create_completion_client_error_not_retried
    [where max_retries = 3 and endpoint = bad_request and tr = fresh_trace and status_code = 400
       and time_sleep = stub_sleep and retry_delay = 1]
  by (simp add: bad_request_def fresh_trace_def)

section \<open>Properties of the cache store\<close>

text \<open>
  Claim C6. For every key, value and time to live, and whatever the connection and the
  JSON functions do, \<^verbatim>\<open>get\<close>, \<^verbatim>\<open>set\<close> and \<^verbatim>\<open>delete\<close> of \<^verbatim>\<open>RedisClient\<close> return and
  never raise. Without a connection \<^verbatim>\<open>get\<close> returns \<^verbatim>\<open>None\<close> and \<^verbatim>\<open>set\<close> and \<^verbatim>\<open>delete\<close>
  return \<^verbatim>\<open>False\<close>, the server untouched; when the command or the JSON function raises,
  \<^verbatim>\<open>get\<close> returns \<^verbatim>\<open>None\<close> and \<^verbatim>\<open>set\<close> and \<^verbatim>\<open>delete\<close> return \<^verbatim>\<open>False\<close>.
\<close>

theorem redis_client_absorbs_failures:
  "(\<exists>v. fst (redis_get lib self key srv) = Inr v)
   \<and> (\<exists>ok. fst (redis_set lib self key v ttl srv) = Inr ok)
   \<and> (\<exists>ok. fst (redis_delete self key srv) = Inr ok)
   \<and> (redis down = None
      \<longrightarrow> redis_get lib down key srv' = (Inr JNull, srv')
        \<and> redis_set lib down key v ttl srv' = (Inr False, srv')
        \<and> redis_delete down key srv' = (Inr False, srv'))
   \<and> (redis self = Some conn
        \<and> ((\<exists>e. fst (conn_get conn key srv) = Inl e)
           \<or> (\<exists>s e. fst (conn_get conn key srv) = Inr (Some s) \<and> json_loads lib s = Inl e))
      \<longrightarrow> fst (redis_get lib self key srv) = Inr JNull)
   \<and> (redis self = Some conn
        \<and> ((\<exists>e. json_dumps lib v = Inl e)
           \<or> (\<exists>s e. json_dumps lib v = Inr s
                \<and> fst (conn_setex conn key (case ttl of Some t \<Rightarrow> t | None \<Rightarrow> cache_ttl self) s srv)
                    = Inl e))
      \<longrightarrow> fst (redis_set lib self key v ttl srv) = Inr False)
   \<and> (redis self = Some conn \<and> (\<exists>e. fst (conn_delete conn [key] srv) = Inl e)
      \<longrightarrow> fst (redis_delete self key srv) = Inr False)"
proof (intro conjI impI)
  show "\<exists>v. fst (redis_get lib self key srv) = Inr v"
    by (simp add: redis_get_def split: option.split prod.split sum.split)
  show "\<exists>ok. fst (redis_set lib self key v ttl srv) = Inr ok"
    by (auto simp: redis_set_def Let_def split: option.split prod.split sum.split)
  show "\<exists>ok. fst (redis_delete self key srv) = Inr ok"
    by (auto simp: redis_delete_def split: option.split prod.split sum.split)
next
  assume "redis down = None"
  then show "redis_get lib down key srv' = (Inr JNull, srv')"
    and "redis_set lib down key v ttl srv' = (Inr False, srv')"
    and "redis_delete down key srv' = (Inr False, srv')"
    by (simp_all add: redis_get_def redis_set_def redis_delete_def)
next
  assume a: "redis self = Some conn
        \<and> ((\<exists>e. fst (conn_get conn key srv) = Inl e)
           \<or> (\<exists>s e. fst (conn_get conn key srv) = Inr (Some s) \<and> json_loads lib s = Inl e))"
  then have c: "redis self = Some conn" by (rule conjunct1)
  from a have "(\<exists>e. fst (conn_get conn key srv) = Inl e)
      \<or> (\<exists>s e. fst (conn_get conn key srv) = Inr (Some s) \<and> json_loads lib s = Inl e)"
    by (rule conjunct2)
  then show "fst (redis_get lib self key srv) = Inr JNull"
  proof (elim disjE exE conjE)
    fix e assume "fst (conn_get conn key srv) = Inl e"
    then show ?thesis
      by (cases "conn_get conn key srv") (simp add: redis_get_def c)
  next
    fix s e assume "fst (conn_get conn key srv) = Inr (Some s)" and "json_loads lib s = Inl e"
    then show ?thesis
      by (cases "conn_get conn key srv") (simp add: redis_get_def c)
  qed
next
  assume a: "redis self = Some conn
        \<and> ((\<exists>e. json_dumps lib v = Inl e)
           \<or> (\<exists>s e. json_dumps lib v = Inr s
                \<and> fst (conn_setex conn key (case ttl of Some t \<Rightarrow> t | None \<Rightarrow> cache_ttl self) s srv)
                    = Inl e))"
  then have c: "redis self = Some conn" by (rule conjunct1)
  from a have "(\<exists>e. json_dumps lib v = Inl e)
      \<or> (\<exists>s e. json_dumps lib v = Inr s
           \<and> fst (conn_setex conn key (case ttl of Some t \<Rightarrow> t | None \<Rightarrow> cache_ttl self) s srv)
               = Inl e)"
    by (rule conjunct2)
  then show "fst (redis_set lib self key v ttl srv) = Inr False"
  proof (elim disjE exE conjE)
    fix e assume "json_dumps lib v = Inl e"
    then show ?thesis by (simp add: redis_set_def c)
  next
    fix s e assume d: "json_dumps lib v = Inr s"
      and "fst (conn_setex conn key (case ttl of Some t \<Rightarrow> t | None \<Rightarrow> cache_ttl self) s srv)
            = Inl e"
    then show ?thesis
      by (cases "conn_setex conn key (case ttl of Some t \<Rightarrow> t | None \<Rightarrow> cache_ttl self) s srv")
        (simp add: redis_set_def c d)
  qed
next
  assume a: "redis self = Some conn \<and> (\<exists>e. fst (conn_delete conn [key] srv) = Inl e)"
  then have c: "redis self = Some conn" by (rule conjunct1)
  from a obtain e where "fst (conn_delete conn [key] srv) = Inl e" by blast
  then show "fst (redis_delete self key srv) = Inr False"
    by (cases "conn_delete conn [key] srv") (simp add: redis_delete_def c)
qed

theorem redis_client_absorbs_failures_witness:
  "redis never_connected = None
   \<and> redis cut_off = Some unreachable
   \<and> fst (conn_get unreachable ''explanation:1'' ()) = Inl (OtherException ''ConnectionError'')
   \<and> json_dumps stub_library (JStr ''text'') = Inr ''null''
   \<and> fst (conn_setex unreachable ''explanation:1'' 86400 ''null'' ())
       = Inl (OtherException ''ConnectionError'')
   \<and> fst (conn_delete unreachable [''explanation:1''] ()) = Inl (OtherException ''ConnectionError'')
   \<and> redis_get stub_library never_connected ''explanation:1'' () = (Inr JNull, ())
   \<and> redis_set stub_library never_connected ''explanation:1'' (JStr ''text'') None ()
       = (Inr False, ())
   \<and> redis_delete never_connected ''explanation:1'' () = (Inr False, ())
   \<and> fst (redis_get stub_library cut_off ''explanation:1'' ()) = Inr JNull
   \<and> fst (redis_set stub_library cut_off ''explanation:1'' (JStr ''text'') None ()) = Inr False
   \<and> fst (redis_delete cut_off ''explanation:1'' ()) = Inr False"
  using redis_client_absorbs_failures
    [where lib = stub_library and self = cut_off and down = never_connected
       and conn = unreachable and key = "''explanation:1''" and v = "JStr ''text''"
       and ttl = None and srv = "()" and srv' = "()"]
  by (simp add: never_connected_def cut_off_def unreachable_def stub_library_def)

section \<open>Properties of the cache invalidation\<close>

text \<open>Patterns and keys of the sample server, by evaluation.\<close>

lemma glob_match_examples:
  "glob_match ''h?llo'' ''hello'' \<and> glob_match ''h*llo'' ''heeeello'' \<and> glob_match ''h*llo'' ''hllo''
   \<and> glob_match ''h[ae]llo'' ''hallo'' \<and> \<not> glob_match ''h[ae]llo'' ''hillo''
   \<and> glob_match ''h[^e]llo'' ''hallo'' \<and> \<not> glob_match ''h[^e]llo'' ''hello''
   \<and> glob_match ''h[a-b]llo'' ''hbllo'' \<and> \<not> glob_match ''h[a-b]llo'' ''hcllo''
   \<and> \<not> glob_match ''hello'' ''hello!'' \<and> glob_match ''hello*'' ''hello''
   \<and> glob_match [CHR ''h'', CHR 0x5C, CHR ''*''] ''h*''
   \<and> \<not> glob_match [CHR ''h'', CHR 0x5C, CHR ''*''] ''hx''"
  by code_simp

text \<open>
  Claim C9 fails. The identifier of student A goes into the pattern without escaping: for
  A = \<^verbatim>\<open>*\<close> and B = \<^verbatim>\<open>bob\<close> the pattern is \<^verbatim>\<open>learning_plan:*:*\<close>, and the invalidation for A
  deletes the learning plan cached for B.
\<close>

theorem invalidate_learning_plans_deletes_other_student:
  "''*'' \<noteq> ''bob''
   \<and> learning_plan_cache_key ''bob'' [''math''] None 30 = ''learning_plan:bob:math:general:30''
   \<and> invalidate_learning_plans live_client ''*'' [(''learning_plan:bob:math:general:30'', ''{}'')]
       = (Inr 1, [])"
  by code_simp

section \<open>Properties of the example extraction\<close>

lemma matched_examples_Nil:
  "re_finditer re pattern content = [] \<Longrightarrow> matched_examples lib re pattern content = []"
  by (simp add: matched_examples_def)

text \<open>
  Claim C8. When neither example pattern matches and the lower-cased text contains
  \<^verbatim>\<open>example\<close>, \<^verbatim>\<open>_extract_examples\<close> returns exactly the placeholder example. For every
  text the result has at most three examples, and when a pattern matches it is the first
  three of the examples found, those of the numbered pattern before those of the bold
  pattern, each in the order of the text.
\<close>

theorem extract_examples_placeholder_and_cap:
  "(re_finditer re NumberedExample content = [] \<and> re_finditer re BoldExample content = []
      \<and> contains ''example'' (str_lower lib content)
     \<longrightarrow> extract_examples lib re content = [placeholder_example])
   \<and> length (extract_examples lib re content) \<le> 3
   \<and> length (extract_examples lib re content') \<le> 3
   \<and> (re_finditer re NumberedExample content' \<noteq> [] \<or> re_finditer re BoldExample content' \<noteq> []
     \<longrightarrow> extract_examples lib re content' =
           take 3 (matched_examples lib re NumberedExample content'
                   @ matched_examples lib re BoldExample content'))"
proof (intro conjI impI)
  assume a: "re_finditer re NumberedExample content = [] \<and> re_finditer re BoldExample content = []
      \<and> contains ''example'' (str_lower lib content)"
  then have n: "matched_examples lib re NumberedExample content = []"
    and b: "matched_examples lib re BoldExample content = []"
    by (simp_all add: matched_examples_Nil)
  from a have c: "contains ''example'' (str_lower lib content)" by simp
  show "extract_examples lib re content = [placeholder_example]"
    unfolding extract_examples_def Let_def n b using c by simp
next
  show "length (extract_examples lib re content) \<le> 3"
    unfolding extract_examples_def Let_def by simp
  show "length (extract_examples lib re content') \<le> 3"
    unfolding extract_examples_def Let_def by simp
next
  assume "re_finditer re NumberedExample content' \<noteq> [] \<or> re_finditer re BoldExample content' \<noteq> []"
  then have "matched_examples lib re NumberedExample content'
      @ matched_examples lib re BoldExample content' \<noteq> []"
    by (auto simp: matched_examples_def)
  then have ne: "\<not> (matched_examples lib re NumberedExample content'
        @ matched_examples lib re BoldExample content' = []
      \<and> contains ''example'' (str_lower lib content'))"
    by blast
  show "extract_examples lib re content' =
      take 3 (matched_examples lib re NumberedExample content'
              @ matched_examples lib re BoldExample content')"
    unfolding extract_examples_def Let_def if_not_P [OF ne] ..
qed

theorem extract_examples_placeholder_and_cap_witness:
  "re_finditer stub_regex NumberedExample ''An example of a sum'' = []
   \<and> re_finditer stub_regex BoldExample ''An example of a sum'' = []
   \<and> contains ''example'' (str_lower stub_library ''An example of a sum'')
   \<and> re_finditer stub_regex NumberedExample ''Four examples'' \<noteq> []
   \<and> extract_examples stub_library stub_regex ''An example of a sum'' =
       [\<lparr>ex_title = ''Example'', ex_content = ''See explanation above for examples.''\<rparr>]
   \<and> extract_examples stub_library stub_regex ''Four examples'' =
       [\<lparr>ex_title = ''one'', ex_content = ''1 + 1''\<rparr>, \<lparr>ex_title = ''two'', ex_content = ''2 + 2''\<rparr>,
        \<lparr>ex_title = ''three'', ex_content = ''3 + 3''\<rparr>]"
proof -
  have h1: "re_finditer stub_regex NumberedExample ''An example of a sum'' = []"
    and h2: "re_finditer stub_regex BoldExample ''An example of a sum'' = []"
    and h4: "re_finditer stub_regex NumberedExample ''Four examples'' \<noteq> []"
    by (simp_all add: stub_regex_def)
  have h3: "contains ''example'' (str_lower stub_library ''An example of a sum'')"
    by (simp add: stub_library_def)
  have m: "matched_examples stub_library stub_regex NumberedExample ''Four examples''
        @ matched_examples stub_library stub_regex BoldExample ''Four examples'' =
      [\<lparr>ex_title = ''one'', ex_content = ''1 + 1''\<rparr>, \<lparr>ex_title = ''two'', ex_content = ''2 + 2''\<rparr>,
       \<lparr>ex_title = ''three'', ex_content = ''3 + 3''\<rparr>, \<lparr>ex_title = ''four'', ex_content = ''4 + 4''\<rparr>]"
    by (simp add: matched_examples_def stub_regex_def stub_library_def)
  have p: "extract_examples stub_library stub_regex ''An example of a sum'' = [placeholder_example]"
    and f: "extract_examples stub_library stub_regex ''Four examples'' =
      take 3 (matched_examples stub_library stub_regex NumberedExample ''Four examples''
              @ matched_examples stub_library stub_regex BoldExample ''Four examples'')"
    using extract_examples_placeholder_and_cap
      [where re = stub_regex and lib = stub_library and content = "''An example of a sum''"
         and content' = "''Four examples''"]
      h1 h2 h3 h4 by blast+
  from h1 h2 h3 h4 p f [unfolded m] show ?thesis by (simp add: placeholder_example_def)
qed

section \<open>Properties of the test generation\<close>

lemma generate_questions_by_type_raises:
  "generate_questions_by_type parts question_type count request tr =
     (Inl (AttributeError ''chat_completion''), tr)"
  by (simp add: generate_questions_by_type_def openai_client_attributes_def)

text \<open>
  The loop raises at the first type with a positive count, and returns the questions it
  was given when no count is positive; it never invokes the endpoint.
\<close>

lemma generate_questions_loop_result:
  "generate_questions_loop parts request d questions tr =
     (if \<exists>x \<in> set d. 0 < snd x then (Inl (AttributeError ''chat_completion''), tr)
      else (Inr questions, tr))"
proof (induction d)
  case Nil
  show ?case by simp
next
  case (Cons x d)
  obtain question_type count where x: "x = (question_type, count)" by (cases x)
  show ?case
  proof (cases "0 < count")
    case True
    then show ?thesis unfolding x by (simp add: generate_questions_by_type_raises)
  next
    case False
    then show ?thesis unfolding x using Cons.IH by simp
  qed
qed

lemma redis_set_call_ex:
  "redis_set_call lib client key v [(''ex'', ttl)] srv =
     (Inl (TypeError ''unexpected keyword argument ex''), srv)"
  by (simp add: redis_set_call_def)

lemma first_share_positive:
  assumes "1 \<le> total_count" and "0 < n"
  shows "0 < share (total_count div int n) (total_count mod int n) 0"
proof (cases "total_count div int n = 0")
  case True
  have "total_count = int n * (total_count div int n) + total_count mod int n" by simp
  then have "total_count mod int n = total_count" unfolding True by simp
  then show ?thesis using assms(1) by (simp add: share_def True)
next
  case False
  have "0 \<le> total_count div int n" using assms by (simp add: pos_imp_zdiv_nonneg_iff)
  with False have "0 < total_count div int n" by simp
  then show ?thesis by (simp add: share_def)
qed

lemma usual_distribution_has_questions:
  assumes "1 \<le> total_count" and "types \<noteq> []" and "distinct types"
  shows "\<exists>d. distribute_questions total_count types = Inr d \<and> (\<exists>x \<in> set d. 0 < snd x)"
proof -
  let ?n = "length types"
  let ?b = "total_count div int ?n"
  let ?r = "total_count mod int ?n"
  let ?d = "zip types (map (share ?b ?r) [0..<?n])"
  have d: "distribute_questions total_count types = Inr ?d"
    using assms(3,2) by (rule distribute_questions_eq)
  have n: "0 < ?n" using assms(2) by simp
  obtain q qs where q: "types = q # qs" using assms(2) by (cases types) auto
  have "[0..<?n] = 0 # [Suc 0..<?n]" using n by (simp add: upt_rec)
  then have "?d = (q, share ?b ?r 0) # zip qs (map (share ?b ?r) [Suc 0..<?n])"
    unfolding q by simp
  then have "(q, share ?b ?r 0) \<in> set ?d" by simp
  moreover have "0 < snd (q, share ?b ?r 0)"
    using first_share_positive [OF assms(1) n] by simp
  ultimately have "\<exists>x \<in> set ?d. 0 < snd x" by blast
  with d show ?thesis by blast
qed

text \<open>The part of \<^verbatim>\<open>generate_test\<close> that runs after a miss.\<close>

lemma generate_test_miss:
  assumes "redis_get lib client (get_cache_key request) srv = (Inr cached, srv')"
      and "\<not> truthy cached"
  shows "generate_test lib parts client request (srv, tr) =
     (case generate_questions parts request tr of
        (Inl e, tr') \<Rightarrow> (Inl e, (srv', tr'))
      | (Inr questions, tr') \<Rightarrow>
          (case build_test parts request questions of
             Inl e \<Rightarrow> (Inl e, (srv', tr'))
           | Inr test \<Rightarrow> (Inl (TypeError ''unexpected keyword argument ex''), (srv', tr'))))"
  using assms
  by (simp add: generate_test_def Let_def redis_set_call_ex split: prod.split sum.split)

lemma generate_questions_result:
  "generate_questions parts request tr =
     (case distribute_questions (question_count request) (question_types request) of
        Inl e \<Rightarrow> (Inl e, tr)
      | Inr d \<Rightarrow> if \<exists>x \<in> set d. 0 < snd x then (Inl (AttributeError ''chat_completion''), tr)
                 else (Inr [], tr))"
  by (simp add: generate_questions_def generate_questions_loop_result split: sum.split)

text \<open>
  Claim C10. After a cache miss \<^verbatim>\<open>generate_test\<close> raises and returns no test, and the
  completion endpoint is not invoked. For a request with at least one question and
  distinct question types the error is the \<^verbatim>\<open>AttributeError\<close> of the look-up of
  \<^verbatim>\<open>chat_completion\<close>. The call of \<^verbatim>\<open>redis_client.set\<close> with the keyword \<^verbatim>\<open>ex\<close> raises
  \<^verbatim>\<open>TypeError\<close> whatever its other arguments are; it is reached when no type has a
  positive count, and then \<^verbatim>\<open>generate_test\<close> raises it once the test is built.
\<close>

theorem generate_test_raises_on_cache_miss:
  "(fst (redis_get lib client (get_cache_key request) srv) = Inr cached \<and> \<not> truthy cached
     \<longrightarrow> (\<exists>e. fst (generate_test lib parts client request (srv, tr)) = Inl e)
         \<and> snd (snd (generate_test lib parts client request (srv, tr))) = tr)
   \<and> (fst (redis_get lib client (get_cache_key request) srv) = Inr cached \<and> \<not> truthy cached
        \<and> 1 \<le> question_count request \<and> question_types request \<noteq> []
        \<and> distinct (question_types request)
     \<longrightarrow> fst (generate_test lib parts client request (srv, tr)) =
           Inl (AttributeError ''chat_completion''))
   \<and> redis_set_call lib client key v [(''ex'', ttl)] srv =
       (Inl (TypeError ''unexpected keyword argument ex''), srv)
   \<and> (fst (redis_get lib client (get_cache_key request') srv) = Inr cached' \<and> \<not> truthy cached'
        \<and> distribute_questions (question_count request') (question_types request') = Inr d
        \<and> (\<forall>x \<in> set d. snd x \<le> 0)
        \<and> build_test parts request' [] = Inr test
     \<longrightarrow> fst (generate_test lib parts client request' (srv, tr)) =
           Inl (TypeError ''unexpected keyword argument ex''))"
proof (intro conjI impI)
  assume a: "fst (redis_get lib client (get_cache_key request) srv) = Inr cached \<and> \<not> truthy cached"
  obtain srv' where g: "redis_get lib client (get_cache_key request) srv = (Inr cached, srv')"
    using a by (cases "redis_get lib client (get_cache_key request) srv") simp
  from a have m: "\<not> truthy cached" by (rule conjunct2)
  show "\<exists>e. fst (generate_test lib parts client request (srv, tr)) = Inl e"
    unfolding generate_test_miss [OF g m] generate_questions_result
    by (simp split: sum.split)
  show "snd (snd (generate_test lib parts client request (srv, tr))) = tr"
    unfolding generate_test_miss [OF g m] generate_questions_result
    by (simp split: sum.split)
next
  assume a: "fst (redis_get lib client (get_cache_key request) srv) = Inr cached \<and> \<not> truthy cached
        \<and> 1 \<le> question_count request \<and> question_types request \<noteq> []
        \<and> distinct (question_types request)"
  obtain srv' where g: "redis_get lib client (get_cache_key request) srv = (Inr cached, srv')"
    using a by (cases "redis_get lib client (get_cache_key request) srv") simp
  from a have m: "\<not> truthy cached" by blast
  from a have "1 \<le> question_count request" and "question_types request \<noteq> []"
    and "distinct (question_types request)" by blast+
  then obtain d where d: "distribute_questions (question_count request) (question_types request) = Inr d"
    and pos: "\<exists>x \<in> set d. 0 < snd x"
    using usual_distribution_has_questions by blast
  show "fst (generate_test lib parts client request (srv, tr)) =
      Inl (AttributeError ''chat_completion'')"
    unfolding generate_test_miss [OF g m] generate_questions_result d using pos by simp
next
  show "redis_set_call lib client key v [(''ex'', ttl)] srv =
      (Inl (TypeError ''unexpected keyword argument ex''), srv)"
    by (rule redis_set_call_ex)
next
  assume a: "fst (redis_get lib client (get_cache_key request') srv) = Inr cached' \<and> \<not> truthy cached'
        \<and> distribute_questions (question_count request') (question_types request') = Inr d
        \<and> (\<forall>x \<in> set d. snd x \<le> 0)
        \<and> build_test parts request' [] = Inr test"
  obtain srv' where g: "redis_get lib client (get_cache_key request') srv = (Inr cached', srv')"
    using a by (cases "redis_get lib client (get_cache_key request') srv") simp
  from a have m: "\<not> truthy cached'" by blast
  from a have d: "distribute_questions (question_count request') (question_types request') = Inr d"
    and b: "build_test parts request' [] = Inr test" by blast+
  from a have "\<forall>x \<in> set d. snd x \<le> 0" by blast
  then have np: "\<not> (\<exists>x \<in> set d. 0 < snd x)" by fastforce
  show "fst (generate_test lib parts client request' (srv, tr)) =
      Inl (TypeError ''unexpected keyword argument ex'')"
    unfolding generate_test_miss [OF g m] generate_questions_result d using np b by simp
qed

theorem generate_test_raises_on_cache_miss_witness:
  "fst (redis_get stub_library live_client (get_cache_key usual_request) []) = Inr JNull
   \<and> \<not> truthy JNull
   \<and> 1 \<le> question_count usual_request \<and> question_types usual_request \<noteq> []
   \<and> distinct (question_types usual_request)
   \<and> fst (redis_get stub_library live_client (get_cache_key repeating_request) []) = Inr JNull
   \<and> distribute_questions (question_count repeating_request) (question_types repeating_request)
       = Inr [(''multiple_choice'', 0)]
   \<and> build_test stub_parts repeating_request [] = Inr ''Mathematics''
   \<and> fst (generate_test stub_library stub_parts live_client usual_request ([], fresh_trace))
       = Inl (AttributeError ''chat_completion'')
   \<and> snd (snd (generate_test stub_library stub_parts live_client usual_request
         ([], fresh_trace))) = fresh_trace
   \<and> fst (generate_test stub_library stub_parts live_client repeating_request ([], fresh_trace))
       = Inl (TypeError ''unexpected keyword argument ex'')"
proof -
  have h1: "fst (redis_get stub_library live_client (get_cache_key usual_request) []) = Inr JNull"
    and h2: "fst (redis_get stub_library live_client (get_cache_key repeating_request) []) = Inr JNull"
    by (simp_all add: redis_get_def live_client_def memory_redis_def)
  have h3: "1 \<le> question_count usual_request \<and> question_types usual_request \<noteq> []
      \<and> distinct (question_types usual_request)"
    by (simp add: usual_request_def)
  have h4: "distribute_questions (question_count repeating_request)
      (question_types repeating_request) = Inr [(''multiple_choice'', 0)]"
    by (simp add: repeating_request_def distribute_questions_def)
  have h5: "build_test stub_parts repeating_request [] = Inr ''Mathematics''"
    by (simp add: stub_parts_def repeating_request_def)
  have t: "\<not> truthy JNull" by simp
  have z: "\<forall>x \<in> set [(''multiple_choice'', 0::int)]. snd x \<le> 0" by simp
  note inst = generate_test_raises_on_cache_miss
    [where lib = stub_library and client = live_client and request = usual_request
       and srv = "[]" and cached = JNull and parts = stub_parts and tr = fresh_trace
       and request' = repeating_request and cached' = JNull
       and d = "[(''multiple_choice'', 0)]" and test = "''Mathematics''"]
  have r1: "fst (generate_test stub_library stub_parts live_client usual_request ([], fresh_trace))
      = Inl (AttributeError ''chat_completion'')"
    using inst h1 h3 t by blast
  have r2: "snd (snd (generate_test stub_library stub_parts live_client usual_request
      ([], fresh_trace))) = fresh_trace"
    using inst h1 t by blast
  have r3: "fst (generate_test stub_library stub_parts live_client repeating_request
      ([], fresh_trace)) = Inl (TypeError ''unexpected keyword argument ex'')"
    using inst h2 h4 h5 t z by blast
  from h1 h2 h3 h4 h5 t r1 r2 r3 show ?thesis by blast
qed

section \<open>Properties of the explanation service\<close>









end
